theory Spec2Isabelle
  imports Main "HOL-Library.Option_ord" "HOL-Library.Multiset"
begin

section \<open>Data model\<close>

text \<open>
  The script \<^verbatim>\<open>analyze.py\<close> reads CSV fragments into pandas data frames, checks that
  their column sets agree, concatenates them, groups the rows by timestamp and keeps the
  per-column maximum of every group.

  A data frame is modelled by its column labels and its rows, each row being the index
  value (the parsed \<^verbatim>\<open>time_iso8601\<close> timestamp) with one cell per column. A timestamp
  is an integer (pandas stores a UTC timestamp as nanoseconds since the epoch; any
  order-preserving encoding does). A cell is \<open>Some v\<close> for the number \<open>v\<close> and
  \<open>None\<close> for NaN, the value pandas puts where a frame has no data for a column. The
  order on cells comes from \<open>Option_ord\<close>: \<open>None\<close> is below every number, so that the
  maximum of a list of cells is the maximum pandas computes when it skips NaN.
  Floating-point rounding and a missing timestamp (NaT) are outside the model.
\<close>

type_synonym timestamp = int
type_synonym cell = "int option"

record dataframe =
  columns :: "string list"
  rows :: "(timestamp \<times> cell list) list"

text \<open>The errors that end a run, each with the exit status the process reports.\<close>

datatype error =
    ArgparseError                                 \<comment> \<open>\<^verbatim>\<open>parser.parse_args()\<close> rejects the command line\<close>
  | NotADirectory string                          \<comment> \<open>line 274, \<^verbatim>\<open>sys.exit(1)\<close>\<close>
  | FileExistsError string                        \<comment> \<open>\<^verbatim>\<open>os.makedirs\<close> on a path that exists\<close>
  | ReadError string                              \<comment> \<open>an exception raised by \<^verbatim>\<open>pd.read_csv\<close>\<close>
  | SchemaMismatch "string set" string "string list"
      \<comment> \<open>lines 74-76: the columns seen so far, the path, the columns of its frame\<close>
  | ConcatValueError                              \<comment> \<open>\<^verbatim>\<open>pd.concat([])\<close>\<close>
  | ResetIndexValueError                          \<comment> \<open>\<^verbatim>\<open>reset_index\<close>: the label \<^verbatim>\<open>time\<close> is taken\<close>
  | KeyError "string list"                        \<comment> \<open>\<^verbatim>\<open>drop\<close>: labels not found in the columns\<close>

fun exit_status :: "error \<Rightarrow> nat" where
  "exit_status ArgparseError = 2"
| "exit_status _ = 1"

section \<open>The aggregation (lines 87 to 106)\<close>

text \<open>The cell of a row under a column label; NaN when the row's frame has no such column.\<close>

definition cell_at :: "string list \<Rightarrow> cell list \<Rightarrow> string \<Rightarrow> cell" where
  "cell_at cols vals c = (case map_of (zip cols vals) c of Some v \<Rightarrow> v | None \<Rightarrow> None)"

text \<open>
  \<^verbatim>\<open>pd.concat(dfs)\<close>: the columns of the result are the union of the frames' columns
  in order of first appearance, the rows are the rows of all frames in order, each
  aligned to the result's columns by label and filled with NaN where its frame lacks the
  column. An empty list of frames raises \<^verbatim>\<open>ValueError\<close>.
\<close>

definition union_columns :: "dataframe list \<Rightarrow> string list" where
  "union_columns dfs = rev (remdups (rev (concat (map columns dfs))))"

definition align_rows :: "string list \<Rightarrow> dataframe \<Rightarrow> (timestamp \<times> cell list) list" where
  "align_rows cols df = map (\<lambda>r. (fst r, map (cell_at (columns df) (snd r)) cols)) (rows df)"

definition concat_frames :: "dataframe list \<Rightarrow> error + dataframe" where
  "concat_frames dfs =
     (if dfs = [] then Inl ConcatValueError
      else Inr \<lparr>columns = union_columns dfs,
                rows = concat (map (align_rows (union_columns dfs)) dfs)\<rparr>)"

text \<open>
  \<^verbatim>\<open>dfa.sort_index(inplace=True)\<close>: the rows ordered by timestamp. The order that
  pandas gives to rows with equal timestamps is not fixed; the model keeps their order,
  and the grouping that follows does not depend on it.
\<close>

definition sort_index :: "dataframe \<Rightarrow> dataframe" where
  "sort_index df = df\<lparr>rows := sort_key fst (rows df)\<rparr>"

text \<open>
  \<^verbatim>\<open>dfa.groupby(dfa.index).max()\<close>: one row per distinct timestamp, in ascending order;
  in every column the maximum of the group's cells, NaN skipped (NaN when the group has
  nothing else).
\<close>

definition max_skipna :: "cell list \<Rightarrow> cell" where
  "max_skipna cells = fold max cells None"

definition group_of :: "dataframe \<Rightarrow> timestamp \<Rightarrow> (timestamp \<times> cell list) list" where
  "group_of df t = filter (\<lambda>r. fst r = t) (rows df)"

definition groupby_max :: "dataframe \<Rightarrow> dataframe" where
  "groupby_max df =
     \<lparr>columns = columns df,
      rows = map (\<lambda>t. (t, map (\<lambda>c. max_skipna (map (\<lambda>r. cell_at (columns df) (snd r) c)
                                                   (group_of df t)))
                              (columns df)))
                 (sort (remdups (map fst (rows df))))\<rparr>"

text \<open>Lines 87 to 106 together: from the list \<^verbatim>\<open>dfs\<close> to \<^verbatim>\<open>df_agg\<close>.\<close>

definition build_aggregate :: "dataframe list \<Rightarrow> error + dataframe" where
  "build_aggregate dfs =
     (case concat_frames dfs of
        Inl e \<Rightarrow> Inl e
      | Inr dfa \<Rightarrow> Inr (groupby_max (sort_index dfa)))"

text \<open>
  What the claims observe of a frame: its timestamps, and the value at a timestamp and
  a column (\<open>None\<close> when the frame has no such row or no such column; the first row
  when several carry the timestamp). \<open>observations\<close> lists every cell that any row of
  any fragment holds for a timestamp and a column.
\<close>

definition timestamps :: "dataframe \<Rightarrow> timestamp list" where
  "timestamps df = map fst (rows df)"

definition value_at :: "dataframe \<Rightarrow> timestamp \<Rightarrow> string \<Rightarrow> cell option" where
  "value_at df t c =
     (case find (\<lambda>r. fst r = t) (rows df) of
        None \<Rightarrow> None
      | Some r \<Rightarrow> map_of (zip (columns df) (snd r)) c)"

definition observations :: "dataframe list \<Rightarrow> timestamp \<Rightarrow> string \<Rightarrow> cell list" where
  "observations dfs t c =
     concat (map (\<lambda>df. map (\<lambda>r. cell_at (columns df) (snd r) c) (group_of df t)) dfs)"

text \<open>The frame \<^verbatim>\<open>dfa\<close> of line 87 for a non-empty list of frames.\<close>

definition dfa_of :: "dataframe list \<Rightarrow> dataframe" where
  "dfa_of dfs = \<lparr>columns = union_columns dfs, rows = concat (map (align_rows (union_columns dfs)) dfs)\<rparr>"

text \<open>
  The invariant of the aggregate: distinct column labels, one row per timestamp in
  ascending order, one cell per column in every row.
\<close>

definition canonical :: "dataframe \<Rightarrow> bool" where
  "canonical S \<longleftrightarrow> distinct (columns S) \<and> sorted (timestamps S) \<and> distinct (timestamps S) \<and>
     (\<forall>r\<in>set (rows S). length (snd r) = length (columns S))"

section \<open>Reading the fragments and the column check (lines 63 to 79)\<close>

text \<open>
  \<^verbatim>\<open>pd.read_csv\<close> is a parameter of the model: it gives, for a path, the frame read
  from it or the exception raised. The loop keeps the set \<^verbatim>\<open>column_names_seen\<close> and
  the list \<^verbatim>\<open>dfs\<close>; it leaves the run at the first frame whose column set differs from
  a non-empty \<^verbatim>\<open>column_names_seen\<close>, after logging that set, the path and the frame's
  columns.
\<close>

fun read_fragments ::
  "(string \<Rightarrow> error + dataframe) \<Rightarrow> string list \<Rightarrow> string set \<Rightarrow> dataframe list
     \<Rightarrow> error + dataframe list" where
  "read_fragments read_csv [] column_names_seen dfs = Inr dfs"
| "read_fragments read_csv (p # ps) column_names_seen dfs =
     (case read_csv p of
        Inl e \<Rightarrow> Inl e
      | Inr df \<Rightarrow>
          if column_names_seen \<noteq> {} \<and> set (columns df) \<noteq> column_names_seen
          then Inl (SchemaMismatch column_names_seen p (columns df))
          else read_fragments read_csv ps (column_names_seen \<union> set (columns df)) (dfs @ [df]))"

section \<open>The command line and the output directory (lines 259 to 284)\<close>

text \<open>
  The file system maps a path to what is there: a file, or a directory with the names
  of its entries. \<^verbatim>\<open>shutil.rmtree\<close> removes a directory with all it holds,
  \<^verbatim>\<open>os.makedirs\<close> creates an empty one and fails on a path that exists. The paths
  of the model are not related to each other: \<^verbatim>\<open>os.makedirs\<close> also creates the parent
  directories that a path lacks, which the model does not record. What is stated below
  about a directory that \<^verbatim>\<open>os.makedirs\<close> has created is therefore stated about the node
  of that path; an equation between whole file systems is stated only where the
  directory existed before, so that its parents existed as well.
\<close>

datatype node = File | Dir "string list"

type_synonym filesystem = "string \<Rightarrow> node option"

record args =
  csvpath :: "string list"
  pandoc_command :: string
  resources_directory :: string
  output_directory :: string

definition rmtree :: "string \<Rightarrow> filesystem \<Rightarrow> filesystem" where
  "rmtree p fs = fs(p := None)"

definition makedirs :: "string \<Rightarrow> filesystem \<Rightarrow> error + filesystem" where
  "makedirs p fs = (if fs p \<noteq> None then Inl (FileExistsError p) else Inr (fs(p \<mapsto> Dir [])))"

text \<open>
  \<^verbatim>\<open>csvpath\<close> is declared with \<^verbatim>\<open>nargs="+"\<close>: a command line without a CSV path is
  rejected by \<^verbatim>\<open>parser.parse_args()\<close>, which prints the usage and exits with status 2
  before the output directory is looked at. Otherwise an existing output directory is
  removed and an empty one is created.
\<close>

definition parse_args :: "args \<Rightarrow> filesystem \<Rightarrow> error + filesystem" where
  "parse_args a fs =
     (if csvpath a = [] then Inl ArgparseError
      else case fs (output_directory a) of
             None \<Rightarrow> makedirs (output_directory a) fs
           | Some File \<Rightarrow> Inl (NotADirectory (output_directory a))
           | Some (Dir entries) \<Rightarrow> makedirs (output_directory a) (rmtree (output_directory a) fs))"

section \<open>Preparing the presentation (lines 135 to 138)\<close>

text \<open>
  \<^verbatim>\<open>reset_index\<close> turns the index, named \<^verbatim>\<open>time\<close> since line 91, into the first
  column and numbers the rows; it raises \<^verbatim>\<open>ValueError\<close> when a column of that name
  exists. \<^verbatim>\<open>drop(columns=labels)\<close> raises \<^verbatim>\<open>KeyError\<close> when a label is not a column.
\<close>

definition reset_index :: "dataframe \<Rightarrow> error + dataframe" where
  "reset_index df =
     (if ''time'' \<in> set (columns df) then Inl ResetIndexValueError
      else Inr \<lparr>columns = ''time'' # columns df,
                rows = map (\<lambda>(i, r). (int i, Some (fst r) # snd r)) (enumerate 0 (rows df))\<rparr>)"

definition drop_columns :: "string list \<Rightarrow> dataframe \<Rightarrow> error + dataframe" where
  "drop_columns labels df =
     (if filter (\<lambda>l. l \<notin> set (columns df)) labels \<noteq> []
      then Inl (KeyError (filter (\<lambda>l. l \<notin> set (columns df)) labels))
      else Inr \<lparr>columns = filter (\<lambda>c. c \<notin> set labels) (columns df),
                rows = map (\<lambda>r. (fst r, map snd (filter (\<lambda>cv. fst cv \<notin> set labels)
                                                    (zip (columns df) (snd r)))))
                           (rows df)\<rparr>)"

definition presentation :: "dataframe \<Rightarrow> error + dataframe \<times> dataframe" where
  "presentation df_agg =
     (case reset_index df_agg of
        Inl e \<Rightarrow> Inl e
      | Inr df \<Rightarrow>
          (case drop_columns [''clones_unique'', ''clones_total''] df of
             Inl e \<Rightarrow> Inl e
           | Inr df_agg_views \<Rightarrow>
               (case drop_columns [''views_unique'', ''views_total''] df of
                  Inl e \<Rightarrow> Inl e
                | Inr df_agg_clones \<Rightarrow> Inr (df_agg_views, df_agg_clones))))"

section \<open>The run (lines 57 to 138)\<close>

text \<open>
  \<open>main\<close> follows the source up to line 138: the command line and the output
  directory, the reading loop, the aggregation, the frames for the charts. It returns
  the aggregate or the error that ended the run, and the file system at that point.
  \<^verbatim>\<open>pd.read_csv\<close> sees the file system as \<^verbatim>\<open>parse_args\<close> left it. What follows line
  138 (the charts, the report, the resources, pandoc) writes its files only after all of
  this has succeeded and is not modelled; lines 226 to 229 of the source are a stray
  fragment of an unfinished edit.
\<close>

definition main ::
  "(filesystem \<Rightarrow> string \<Rightarrow> error + dataframe) \<Rightarrow> args \<Rightarrow> filesystem
     \<Rightarrow> (error + dataframe) \<times> filesystem" where
  "main read_csv a fs =
     (case parse_args a fs of
        Inl e \<Rightarrow> (Inl e, fs)
      | Inr fs1 \<Rightarrow>
          (case read_fragments (read_csv fs1) (csvpath a) {} [] of
             Inl e \<Rightarrow> (Inl e, fs1)
           | Inr dfs \<Rightarrow>
               (case build_aggregate dfs of
                  Inl e \<Rightarrow> (Inl e, fs1)
                | Inr df_agg \<Rightarrow>
                    (case presentation df_agg of
                       Inl e \<Rightarrow> (Inl e, fs1)
                     | Inr views_clones \<Rightarrow> (Inr df_agg, fs1)))))"

section \<open>Example inputs\<close>

text \<open>
  The fragments of the comment at lines 98 to 105: the sample of Dec 7 is 73 in the
  earlier snapshot and 18 in the later one. A date is written as the number yyyymmdd.
\<close>

definition fragment_A :: dataframe where
  "fragment_A = \<lparr>columns = [''clones_total''],
                  rows = [(20201201, [Some 10]), (20201207, [Some 73])]\<rparr>"

definition fragment_B :: dataframe where
  "fragment_B = \<lparr>columns = [''clones_total''],
                  rows = [(20201205, [Some 4]), (20201207, [Some 18])]\<rparr>"

definition fragment_A_rev :: dataframe where
  "fragment_A_rev = \<lparr>columns = [''clones_total''],
                      rows = [(20201207, [Some 73]), (20201201, [Some 10])]\<rparr>"

text \<open>
  A fragment without any counter column, one with the four counters, and one with a
  different column; readers that serve them under the paths \<^verbatim>\<open>a.csv\<close> and
  \<^verbatim>\<open>b.csv\<close>; a command line, and a file system with an output directory left by an
  earlier run.
\<close>

definition fragment_no_columns :: dataframe where
  "fragment_no_columns = \<lparr>columns = [], rows = [(20201130, [])]\<rparr>"

definition fragment_four :: dataframe where
  "fragment_four = \<lparr>columns = [''clones_total'', ''clones_unique'', ''views_total'', ''views_unique''],
                     rows = [(20201201, [Some 10, Some 3, Some 25, Some 7])]\<rparr>"

definition fragment_views :: dataframe where
  "fragment_views = \<lparr>columns = [''views_total''], rows = [(20201205, [Some 4])]\<rparr>"

definition reader_empty_first :: "string \<Rightarrow> error + dataframe" where
  "reader_empty_first p = (if p = ''a.csv'' then Inr fragment_no_columns else Inr fragment_four)"

definition reader_mismatch :: "filesystem \<Rightarrow> string \<Rightarrow> error + dataframe" where
  "reader_mismatch fs p = (if p = ''a.csv'' then Inr fragment_A else Inr fragment_views)"

definition reader_clones :: "filesystem \<Rightarrow> string \<Rightarrow> error + dataframe" where
  "reader_clones fs p = (if p = ''a.csv'' then Inr fragment_A else Inr fragment_B)"

definition example_args :: args where
  "example_args = \<lparr>csvpath = [''a.csv'', ''b.csv''], pandoc_command = ''pandoc'',
                    resources_directory = ''resources'', output_directory = ''report''\<rparr>"

definition no_csv_args :: args where
  "no_csv_args = \<lparr>csvpath = [], pandoc_command = ''pandoc'',
                   resources_directory = ''resources'', output_directory = ''report''\<rparr>"

definition example_fs :: filesystem where
  "example_fs = [''report'' \<mapsto> Dir [''old_report.md'', ''old_report.html'']]"

section \<open>Properties of the aggregation\<close>

lemma max_None_left: "max None (x::cell) = x"
  by (simp add: max_def)

lemma max_skipna_Max: "cells \<noteq> [] \<Longrightarrow> max_skipna cells = Max (set cells)"
proof -
  assume ne: "cells \<noteq> []"
  have "fold max cells None = Max (set (None # cells))"
    by (rule Max.set_eq_fold [symmetric])
  also have "\<dots> = max None (Max (set cells))"
    using ne by (simp add: Max_insert)
  finally show ?thesis by (simp add: max_skipna_def max_None_left)
qed

lemma set_union_columns: "set (union_columns dfs) = (\<Union>df\<in>set dfs. set (columns df))"
  by (simp add: union_columns_def)

lemma distinct_union_columns: "distinct (union_columns dfs)"
  by (simp add: union_columns_def)

lemma union_columns_single: "distinct (columns df) \<Longrightarrow> union_columns [df] = columns df"
  by (simp add: union_columns_def distinct_remdups_id)

lemma cell_at_map: "cell_at cols (map g cols) c = (if c \<in> set cols then g c else None)"
  by (simp add: cell_at_def map_of_zip_map)

lemma timestamps_groupby_max: "timestamps (groupby_max df) = sort (remdups (timestamps df))"
  by (simp add: timestamps_def groupby_max_def comp_def)

lemma value_at_groupby_max:
  "value_at (groupby_max df) t c =
     (if t \<in> set (timestamps df) \<and> c \<in> set (columns df)
      then Some (max_skipna (map (\<lambda>r. cell_at (columns df) (snd r) c) (group_of df t)))
      else None)"
proof (cases "t \<in> set (timestamps df)")
  case False
  then have "find (\<lambda>r. fst r = t) (rows (groupby_max df)) = None"
    by (auto simp: find_None_iff groupby_max_def timestamps_def)
  with False show ?thesis by (simp add: value_at_def)
next
  case True
  let ?f = "\<lambda>t. (t, map (\<lambda>c. max_skipna (map (\<lambda>r. cell_at (columns df) (snd r) c) (group_of df t))) (columns df))"
  have "find (\<lambda>r. fst r = t) (map ?f ks) = (if t \<in> set ks then Some (?f t) else None)" for ks
    by (induction ks) auto
  with True have "find (\<lambda>r. fst r = t) (rows (groupby_max df)) = Some (?f t)"
    by (simp add: groupby_max_def timestamps_def)
  with True show ?thesis
    by (simp add: value_at_def groupby_max_def map_of_zip_map)
qed

lemma build_aggregate_Inr:
  "dfs \<noteq> [] \<Longrightarrow> build_aggregate dfs = Inr (groupby_max (sort_index (dfa_of dfs)))"
  by (simp add: build_aggregate_def concat_frames_def dfa_of_def)

lemma build_aggregate_Nil: "build_aggregate [] = Inl ConcatValueError"
  by (simp add: build_aggregate_def concat_frames_def)

lemma columns_sort_index: "columns (sort_index df) = columns df"
  by (simp add: sort_index_def)

lemma timestamps_sort_index: "set (timestamps (sort_index df)) = set (timestamps df)"
  by (simp add: sort_index_def timestamps_def)

lemma set_group_of_sort_index: "set (group_of (sort_index df) t) = {r \<in> set (rows df). fst r = t}"
  by (auto simp: group_of_def sort_index_def)

lemma timestamps_align_rows: "map fst (align_rows U df) = timestamps df"
  by (simp add: align_rows_def timestamps_def comp_def)

lemma timestamps_concat_align:
  "map fst (concat (map (align_rows U) dfs)) = concat (map timestamps dfs)"
  by (induction dfs) (simp_all add: timestamps_align_rows)

lemma timestamps_dfa_of: "timestamps (dfa_of dfs) = concat (map timestamps dfs)"
  using timestamps_concat_align [of "union_columns dfs" dfs]
  by (simp add: dfa_of_def timestamps_def)

lemma set_observations:
  "set (observations dfs t c) =
     (\<Union>df\<in>set dfs. (\<lambda>r. cell_at (columns df) (snd r) c) ` {r \<in> set (rows df). fst r = t})"
  by (auto simp: observations_def group_of_def)

lemma rows_dfa_of:
  "set (rows (dfa_of dfs)) =
     (\<Union>df\<in>set dfs. (\<lambda>r. (fst r, map (cell_at (columns df) (snd r)) (union_columns dfs))) ` set (rows df))"
  by (simp add: dfa_of_def align_rows_def)

lemma cells_of_group:
  assumes c: "c \<in> set (union_columns dfs)"
  shows "set (map (\<lambda>r. cell_at (columns (sort_index (dfa_of dfs))) (snd r) c)
                  (group_of (sort_index (dfa_of dfs)) t)) = set (observations dfs t c)"
proof -
  let ?U = "union_columns dfs"
  have cols: "columns (sort_index (dfa_of dfs)) = ?U"
    by (simp add: columns_sort_index dfa_of_def)
  have al: "cell_at ?U (map (cell_at (columns df) vals) ?U) c = cell_at (columns df) vals c"
    for df vals using c by (simp add: cell_at_map)
  have "(\<lambda>r. cell_at ?U (snd r) c) ` {r \<in> set (rows (dfa_of dfs)). fst r = t} =
        (\<Union>df\<in>set dfs. (\<lambda>r. cell_at (columns df) (snd r) c) ` {r \<in> set (rows df). fst r = t})"
    (is "?L = ?R")
  proof (intro set_eqI iffI)
    fix x assume "x \<in> ?L"
    then obtain r where r: "r \<in> set (rows (dfa_of dfs))" "fst r = t" "x = cell_at ?U (snd r) c"
      by auto
    from r(1) obtain df r0 where d: "df \<in> set dfs" "r0 \<in> set (rows df)"
      "r = (fst r0, map (cell_at (columns df) (snd r0)) ?U)"
      unfolding rows_dfa_of by auto
    from r d have "x = cell_at (columns df) (snd r0) c" "fst r0 = t" by (simp_all add: al)
    with d show "x \<in> ?R" by auto
  next
    fix x assume "x \<in> ?R"
    then obtain df r0 where d: "df \<in> set dfs" "r0 \<in> set (rows df)" "fst r0 = t"
      "x = cell_at (columns df) (snd r0) c" by auto
    let ?r = "(fst r0, map (cell_at (columns df) (snd r0)) ?U)"
    have "?r \<in> set (rows (dfa_of dfs))" unfolding rows_dfa_of using d by auto
    moreover have "fst ?r = t" using d by simp
    moreover have "x = cell_at ?U (snd ?r) c" using d by (simp add: al)
    ultimately show "x \<in> ?L" by blast
  qed
  then show ?thesis by (simp add: set_group_of_sort_index cols set_observations)
qed

lemma observations_nonempty:
  "t \<in> set (concat (map timestamps dfs)) \<Longrightarrow> observations dfs t c \<noteq> []"
  by (auto simp: observations_def group_of_def timestamps_def filter_empty_conv)

lemma value_at_build_aggregate:
  assumes "build_aggregate dfs = Inr S"
  shows "value_at S t c =
     (if t \<in> set (concat (map timestamps dfs)) \<and> c \<in> set (union_columns dfs)
      then Some (Max (set (observations dfs t c))) else None)"
proof -
  from assms have ne: "dfs \<noteq> []" by (auto simp: build_aggregate_Nil)
  with assms have S: "S = groupby_max (sort_index (dfa_of dfs))"
    by (simp add: build_aggregate_Inr)
  have cols: "columns (sort_index (dfa_of dfs)) = union_columns dfs"
    by (simp add: columns_sort_index dfa_of_def)
  have ts: "set (timestamps (sort_index (dfa_of dfs))) = set (concat (map timestamps dfs))"
    by (simp only: timestamps_sort_index timestamps_dfa_of)
  show ?thesis
  proof (cases "t \<in> set (concat (map timestamps dfs)) \<and> c \<in> set (union_columns dfs)")
    case False
    then show ?thesis unfolding S value_at_groupby_max ts cols by auto
  next
    case True
    let ?cells = "map (\<lambda>r. cell_at (columns (sort_index (dfa_of dfs))) (snd r) c)
                  (group_of (sort_index (dfa_of dfs)) t)"
    have eq: "set ?cells = set (observations dfs t c)"
      using True by (intro cells_of_group) simp
    have "observations dfs t c \<noteq> []" using True by (simp add: observations_nonempty)
    with eq have "?cells \<noteq> []" by (metis set_empty)
    then have "max_skipna ?cells = Max (set ?cells)" by (rule max_skipna_Max)
    also have "\<dots> = Max (set (observations dfs t c))" by (simp only: eq)
    finally have "max_skipna ?cells = Max (set (observations dfs t c))" .
    moreover have "value_at S t c = Some (max_skipna ?cells)"
      using True unfolding S value_at_groupby_max ts by (simp add: cols)
    ultimately show ?thesis using True by simp
  qed
qed

lemma timestamps_build_aggregate:
  assumes "build_aggregate dfs = Inr S"
  shows "timestamps S = sort (remdups (concat (map timestamps dfs)))"
proof -
  from assms have ne: "dfs \<noteq> []" by (auto simp: build_aggregate_Nil)
  with assms have S: "S = groupby_max (sort_index (dfa_of dfs))"
    by (simp add: build_aggregate_Inr)
  have "set (timestamps (sort_index (dfa_of dfs))) = set (concat (map timestamps dfs))"
    by (simp only: timestamps_sort_index timestamps_dfa_of)
  then have "sort (remdups (timestamps (sort_index (dfa_of dfs)))) = sort (remdups (concat (map timestamps dfs)))"
    by (simp only: sorted_list_of_set_sort_remdups [symmetric])
  then show ?thesis by (simp add: S timestamps_groupby_max)
qed

lemma columns_build_aggregate:
  assumes "build_aggregate dfs = Inr S"
  shows "columns S = union_columns dfs"
proof -
  from assms have ne: "dfs \<noteq> []" by (auto simp: build_aggregate_Nil)
  with assms have S: "S = groupby_max (sort_index (dfa_of dfs))"
    by (simp add: build_aggregate_Inr)
  show ?thesis unfolding S by (simp add: groupby_max_def columns_sort_index dfa_of_def)
qed

lemma canonical_groupby_max: "distinct (columns df) \<Longrightarrow> canonical (groupby_max df)"
  by (simp add: canonical_def timestamps_groupby_max) (simp add: groupby_max_def)

lemma canonical_build_aggregate: "build_aggregate dfs = Inr S \<Longrightarrow> canonical S"
proof -
  assume a: "build_aggregate dfs = Inr S"
  then have "dfs \<noteq> []" by (auto simp: build_aggregate_Nil)
  with a have S: "S = groupby_max (sort_index (dfa_of dfs))" by (simp add: build_aggregate_Inr)
  have "distinct (columns (sort_index (dfa_of dfs)))"
    by (simp add: columns_sort_index dfa_of_def distinct_union_columns)
  then show ?thesis unfolding S by (rule canonical_groupby_max)
qed

lemma map_cell_at_id:
  assumes "distinct cols" "length vals = length cols"
  shows "map (cell_at cols vals) cols = vals"
proof (rule nth_equalityI)
  show "length (map (cell_at cols vals) cols) = length vals" using assms by simp
next
  fix i assume "i < length (map (cell_at cols vals) cols)"
  then have i: "i < length cols" by simp
  have "map_of (zip cols vals) (cols ! i) = Some (vals ! i)"
    using assms i by (intro map_of_zip_nth) simp_all
  then show "map (cell_at cols vals) cols ! i = vals ! i"
    using i by (simp add: cell_at_def)
qed

lemma align_rows_id:
  assumes "canonical S"
  shows "align_rows (columns S) S = rows S"
proof -
  have "(fst r, map (cell_at (columns S) (snd r)) (columns S)) = r" if "r \<in> set (rows S)" for r
    using assms that by (simp add: canonical_def map_cell_at_id)
  then show ?thesis unfolding align_rows_def by (intro map_idI) 
qed

lemma filter_key_distinct:
  "distinct (map fst xs) \<Longrightarrow> r \<in> set xs \<Longrightarrow> filter (\<lambda>r'. fst r' = fst r) xs = [r]"
proof (induction xs)
  case Nil then show ?case by simp
next
  case (Cons x xs)
  show ?case
  proof (cases "x = r")
    case True
    with Cons.prems have "\<forall>y\<in>set xs. fst y \<noteq> fst r" by (auto simp: image_iff)
    then have "filter (\<lambda>r'. fst r' = fst r) xs = []" by (simp add: filter_empty_conv)
    with True show ?thesis by simp
  next
    case False
    with Cons.prems have "r \<in> set xs" "fst x \<noteq> fst r" by (auto simp: image_iff)
    with Cons show ?thesis by simp
  qed
qed

lemma max_skipna_single: "max_skipna [x] = x"
  by (auto simp: max_skipna_def max_def dest: less_eq_option_None_is_None)

lemma groupby_max_id:
  assumes "canonical S"
  shows "groupby_max S = S"
proof -
  have ts: "sort (remdups (map fst (rows S))) = map fst (rows S)"
    using assms by (simp add: canonical_def timestamps_def distinct_remdups_id sorted_sort_id)
  have row: "(fst r, map (\<lambda>c. max_skipna (map (\<lambda>r. cell_at (columns S) (snd r) c) (group_of S (fst r)))) (columns S)) = r"
    if "r \<in> set (rows S)" for r
  proof -
    have "group_of S (fst r) = [r]"
      using assms that unfolding group_of_def canonical_def timestamps_def
      by (intro filter_key_distinct) simp_all
    moreover have "map (cell_at (columns S) (snd r)) (columns S) = snd r"
      using assms that by (simp add: canonical_def map_cell_at_id)
    ultimately show ?thesis by (simp add: max_skipna_single)
  qed
  have "rows (groupby_max S) = rows S"
    unfolding groupby_max_def ts using row by (simp add: comp_def map_idI)
  then show ?thesis by (simp add: groupby_max_def)
qed

lemma sort_index_id: "canonical S \<Longrightarrow> sort_index S = S"
  by (simp add: sort_index_def canonical_def timestamps_def sort_key_id_if_sorted)

lemma build_aggregate_canonical:
  assumes "canonical S"
  shows "build_aggregate [S] = Inr S"
proof -
  have "union_columns [S] = columns S"
    using assms by (simp add: canonical_def union_columns_single)
  then have "dfa_of [S] = S"
    using assms by (simp add: dfa_of_def align_rows_id)
  then show ?thesis
    using assms by (simp add: build_aggregate_Inr sort_index_id groupby_max_id)
qed

lemma Union_list_all2:
  assumes "list_all2 P xs ys" and "\<And>x y. P x y \<Longrightarrow> f x = f y"
  shows "(\<Union>x\<in>set xs. f x) = (\<Union>y\<in>set ys. f y)"
  using assms by (induction rule: list_all2_induct) auto

text \<open>
  Claim C1. For a timestamp \<open>t\<close> and a column \<open>c\<close> that a fragment has, the aggregate
  is produced and its value at \<open>(t, c)\<close> is the maximum of the cells that the rows with
  timestamp \<open>t\<close> of all fragments hold for \<open>c\<close>: every row counts, also several rows
  of one fragment with the same timestamp.
\<close>

theorem pointwise_maximum:
  assumes "df \<in> set dfs" and "t \<in> set (timestamps df)" and "c \<in> set (columns df)"
  shows "\<exists>S. build_aggregate dfs = Inr S \<and>
             value_at S t c = Some (Max (set (observations dfs t c)))"
proof -
  from assms(1) have "dfs \<noteq> []" by auto
  then obtain S where S: "build_aggregate dfs = Inr S" by (simp add: build_aggregate_Inr)
  have "t \<in> set (concat (map timestamps dfs))" using assms(1,2) by auto
  moreover have "c \<in> set (union_columns dfs)" using assms(1,3) by (auto simp: set_union_columns)
  ultimately have "value_at S t c = Some (Max (set (observations dfs t c)))"
    by (simp add: value_at_build_aggregate [OF S])
  with S show ?thesis by blast
qed

lemma observations_example:
  "observations [fragment_A, fragment_B] 20201207 ''clones_total'' = [Some 73, Some 18]"
  by (simp add: observations_def group_of_def fragment_A_def fragment_B_def cell_at_def)

text \<open>
  The example of the comment in the source: Dec 7 is 73 in fragment A and 18 in
  fragment B, and 73 in the aggregate.
\<close>

theorem pointwise_maximum_example:
  "fragment_A \<in> set [fragment_A, fragment_B] \<and> 20201207 \<in> set (timestamps fragment_A) \<and>
   ''clones_total'' \<in> set (columns fragment_A) \<and>
   (\<exists>S. build_aggregate [fragment_A, fragment_B] = Inr S \<and>
        value_at S 20201207 ''clones_total'' = Some (Some 73))"
proof -
  have h1: "fragment_A \<in> set [fragment_A, fragment_B]" by simp
  have h2: "20201207 \<in> set (timestamps fragment_A)" by (simp add: timestamps_def fragment_A_def)
  have h3: "''clones_total'' \<in> set (columns fragment_A)" by (simp add: fragment_A_def)
  have "Max (set [Some 73, Some 18 :: cell]) = Some 73" by simp
  with pointwise_maximum [OF h1 h2 h3] h1 h2 h3 show ?thesis
    by (simp only: observations_example) 
qed

text \<open>
  Claim C3. For a non-empty list of fragments the aggregate is produced, its timestamps
  are those of all fragments together, and each of them has one row (the rows are in
  ascending order of distinct timestamps).
\<close>

theorem union_of_timestamps:
  assumes "dfs \<noteq> []"
  shows "\<exists>S. build_aggregate dfs = Inr S \<and>
             set (timestamps S) = (\<Union>df\<in>set dfs. set (timestamps df)) \<and>
             distinct (timestamps S) \<and> sorted (timestamps S)"
proof -
  from assms obtain S where S: "build_aggregate dfs = Inr S" by (simp add: build_aggregate_Inr)
  have "timestamps S = sort (remdups (concat (map timestamps dfs)))"
    by (rule timestamps_build_aggregate [OF S])
  then have "set (timestamps S) = (\<Union>df\<in>set dfs. set (timestamps df))"
    "distinct (timestamps S)" "sorted (timestamps S)" by simp_all
  with S show ?thesis by blast
qed

text \<open>
  Fragments A and B give the three days Dec 1, Dec 5 and Dec 7.
\<close>

theorem union_of_timestamps_example:
  "[fragment_A, fragment_B] \<noteq> [] \<and>
   (\<exists>S. build_aggregate [fragment_A, fragment_B] = Inr S \<and>
        set (timestamps S) = {20201201, 20201205, 20201207} \<and> distinct (timestamps S))"
proof -
  have h: "[fragment_A, fragment_B] \<noteq> []" by simp
  have "(\<Union>df\<in>set [fragment_A, fragment_B]. set (timestamps df)) = {20201201, 20201205, 20201207}"
    by (auto simp: timestamps_def fragment_A_def fragment_B_def)
  with union_of_timestamps [OF h] show ?thesis by auto
qed

text \<open>
  Claim C2. Let the rows of every fragment be permuted (\<open>ds\<close>) and the list of
  fragments be permuted after that (\<open>dfs'\<close>). Both lists give an aggregate, with the same
  timestamps in the same order, the same set of columns, and the same value at every
  timestamp and column. The order of the columns follows the first fragment of the list
  and may differ where fragments list the same columns in different orders.
\<close>

theorem order_independence:
  assumes rows_perm: "list_all2 (\<lambda>d d'. columns d' = columns d \<and> mset (rows d') = mset (rows d)) dfs ds"
    and frags_perm: "mset dfs' = mset ds"
    and ne: "dfs \<noteq> []"
  shows "\<exists>S S'. build_aggregate dfs = Inr S \<and> build_aggregate dfs' = Inr S' \<and>
               timestamps S' = timestamps S \<and> set (columns S') = set (columns S) \<and>
               (\<forall>t c. value_at S' t c = value_at S t c)"
proof -
  have sets: "set dfs' = set ds" using frags_perm by (rule mset_eq_setD)
  from rows_perm ne have "ds \<noteq> []" by auto
  with frags_perm have ne': "dfs' \<noteq> []" by auto
  from ne obtain S where S: "build_aggregate dfs = Inr S" by (simp add: build_aggregate_Inr)
  from ne' obtain S' where S': "build_aggregate dfs' = Inr S'" by (simp add: build_aggregate_Inr)
  have T: "set (concat (map timestamps dfs')) = set (concat (map timestamps dfs))"
  proof -
    have "(\<Union>d\<in>set dfs. set (timestamps d)) = (\<Union>d\<in>set ds. set (timestamps d))"
      using rows_perm
    proof (rule Union_list_all2)
      fix d d' :: dataframe
      assume "columns d' = columns d \<and> mset (rows d') = mset (rows d)"
      then have "set (rows d') = set (rows d)" by (blast dest: mset_eq_setD)
      then show "set (timestamps d) = set (timestamps d')" by (simp add: timestamps_def)
    qed
    then show ?thesis by (simp add: sets)
  qed
  have C: "set (union_columns dfs') = set (union_columns dfs)"
  proof -
    have "(\<Union>d\<in>set dfs. set (columns d)) = (\<Union>d\<in>set ds. set (columns d))"
      using rows_perm by (rule Union_list_all2) simp
    then show ?thesis by (simp add: set_union_columns sets)
  qed
  have O: "set (observations dfs' t c) = set (observations dfs t c)" for t c
  proof -
    have "(\<Union>df\<in>set dfs. (\<lambda>r. cell_at (columns df) (snd r) c) ` {r \<in> set (rows df). fst r = t}) =
          (\<Union>df\<in>set ds. (\<lambda>r. cell_at (columns df) (snd r) c) ` {r \<in> set (rows df). fst r = t})"
      using rows_perm
    proof (rule Union_list_all2)
      fix d d' :: dataframe
      assume "columns d' = columns d \<and> mset (rows d') = mset (rows d)"
      then have "columns d' = columns d" "set (rows d') = set (rows d)"
        by (blast dest: mset_eq_setD)+
      then show "(\<lambda>r. cell_at (columns d) (snd r) c) ` {r \<in> set (rows d). fst r = t} =
                 (\<lambda>r. cell_at (columns d') (snd r) c) ` {r \<in> set (rows d'). fst r = t}" by simp
    qed
    then show ?thesis by (simp add: set_observations sets)
  qed
  have "timestamps S' = timestamps S"
    by (simp only: timestamps_build_aggregate [OF S] timestamps_build_aggregate [OF S']
        sorted_list_of_set_sort_remdups [symmetric] T)
  moreover have "value_at S' t c = value_at S t c" for t c
    by (simp only: value_at_build_aggregate [OF S] value_at_build_aggregate [OF S'] T C O)
  moreover have "set (columns S') = set (columns S)"
    by (simp only: columns_build_aggregate [OF S] columns_build_aggregate [OF S'] C)
  ultimately show ?thesis using S S' by blast
qed

text \<open>
  Fragment A with its rows reversed and listed after fragment B.
\<close>

theorem order_independence_example:
  "list_all2 (\<lambda>d d'. columns d' = columns d \<and> mset (rows d') = mset (rows d))
     [fragment_A, fragment_B] [fragment_A_rev, fragment_B] \<and>
   mset [fragment_B, fragment_A_rev] = mset [fragment_A_rev, fragment_B] \<and>
   [fragment_A, fragment_B] \<noteq> [] \<and>
   (\<exists>S S'. build_aggregate [fragment_A, fragment_B] = Inr S \<and>
           build_aggregate [fragment_B, fragment_A_rev] = Inr S' \<and>
           timestamps S' = timestamps S \<and> set (columns S') = set (columns S) \<and>
           (\<forall>t c. value_at S' t c = value_at S t c))"
proof -
  have h1: "list_all2 (\<lambda>d d'. columns d' = columns d \<and> mset (rows d') = mset (rows d))
     [fragment_A, fragment_B] [fragment_A_rev, fragment_B]"
    by (simp add: fragment_A_def fragment_A_rev_def)
  have h2: "mset [fragment_B, fragment_A_rev] = mset [fragment_A_rev, fragment_B]"
    by (simp add: add.commute)
  have h3: "[fragment_A, fragment_B] \<noteq> []" by simp
  from order_independence [OF h1 h2 h3] h1 h2 h3 show ?thesis by blast
qed

text \<open>
  Claim C4. An aggregate, given back as the only fragment, is returned unchanged.
\<close>

theorem idempotence:
  assumes "build_aggregate dfs = Inr S"
  shows "build_aggregate [S] = Inr S"
  using assms by (intro build_aggregate_canonical canonical_build_aggregate)

lemma build_aggregate_example:
  "build_aggregate [fragment_A, fragment_B] =
     Inr \<lparr>columns = [''clones_total''],
          rows = [(20201201, [Some 10]), (20201205, [Some 4]), (20201207, [Some 73])]\<rparr>"
  by (simp add: build_aggregate_def concat_frames_def union_columns_def align_rows_def
      sort_index_def groupby_max_def group_of_def max_skipna_def cell_at_def
      fragment_A_def fragment_B_def max_def)

text \<open>
  The aggregate of fragments A and B, aggregated again.
\<close>

theorem idempotence_example:
  "build_aggregate [fragment_A, fragment_B] =
     Inr \<lparr>columns = [''clones_total''],
          rows = [(20201201, [Some 10]), (20201205, [Some 4]), (20201207, [Some 73])]\<rparr> \<and>
   build_aggregate [\<lparr>columns = [''clones_total''],
          rows = [(20201201, [Some 10]), (20201205, [Some 4]), (20201207, [Some 73])]\<rparr>] =
     Inr \<lparr>columns = [''clones_total''],
          rows = [(20201201, [Some 10]), (20201205, [Some 4]), (20201207, [Some 73])]\<rparr>"
  using idempotence [OF build_aggregate_example] build_aggregate_example by simp

section \<open>Properties of the reading loop and the column check\<close>

lemma read_fragments_length:
  "read_fragments rd ps seen acc = Inr dfs \<Longrightarrow> length dfs = length acc + length ps"
  by (induction ps arbitrary: seen acc) (auto split: sum.splits if_splits)

lemma read_fragments_pass:
  assumes "\<forall>p\<in>set ps. \<exists>df. rd p = Inr df \<and> set (columns df) = cs"
    and "seen = {} \<or> seen = cs"
  shows "read_fragments rd ps seen acc = Inr (acc @ map (\<lambda>p. projr (rd p)) ps)"
  using assms
proof (induction ps arbitrary: seen acc)
  case Nil
  then show ?case by simp
next
  case (Cons p ps)
  from Cons.prems(1) obtain df where df: "rd p = Inr df" "set (columns df) = cs" by auto
  have seen': "seen \<union> set (columns df) = {} \<or> seen \<union> set (columns df) = cs"
    using Cons.prems(2) df(2) by auto
  have "read_fragments rd ps (seen \<union> set (columns df)) (acc @ [df]) =
          Inr ((acc @ [df]) @ map (\<lambda>p. projr (rd p)) ps)"
    using Cons.prems(1) seen' by (intro Cons.IH) auto
  moreover have "\<not> (seen \<noteq> {} \<and> set (columns df) \<noteq> seen)"
    using Cons.prems(2) df(2) by auto
  ultimately show ?case using df by simp
qed

lemma read_fragments_mismatch:
  assumes "\<forall>p\<in>set ps. \<exists>df. rd p = Inr df"
    and "seen \<noteq> {}"
    and "\<exists>p\<in>set ps. set (columns (projr (rd p))) \<noteq> seen"
  shows "\<exists>p df. p \<in> set ps \<and> rd p = Inr df \<and> set (columns df) \<noteq> seen \<and>
           read_fragments rd ps seen acc = Inl (SchemaMismatch seen p (columns df))"
  using assms
proof (induction ps arbitrary: acc)
  case Nil
  then show ?case by simp
next
  case (Cons p ps)
  from Cons.prems(1) obtain df where df: "rd p = Inr df" by auto
  show ?case
  proof (cases "set (columns df) = seen")
    case False
    with df Cons.prems(2) have
      "read_fragments rd (p # ps) seen acc = Inl (SchemaMismatch seen p (columns df))" by simp
    with df False show ?thesis by auto
  next
    case True
    with Cons.prems(3) df have ex: "\<exists>q\<in>set ps. set (columns (projr (rd q))) \<noteq> seen" by auto
    from Cons.prems(1) have "\<forall>q\<in>set ps. \<exists>df. rd q = Inr df" by simp
    from Cons.IH [OF this Cons.prems(2) ex, of "acc @ [df]"]
    obtain q dq where q: "q \<in> set ps" "rd q = Inr dq" "set (columns dq) \<noteq> seen"
      "read_fragments rd ps seen (acc @ [df]) = Inl (SchemaMismatch seen q (columns dq))" by blast
    have "seen \<union> set (columns df) = seen" using True by auto
    with q df True have
      "read_fragments rd (p # ps) seen acc = Inl (SchemaMismatch seen q (columns dq))" by simp
    with q show ?thesis by auto
  qed
qed

lemma schema_guard_first_nonempty:
  assumes "rd p0 = Inr df0" and "columns df0 \<noteq> []"
    and "\<forall>p\<in>set ps. \<exists>df. rd p = Inr df"
    and "\<exists>p\<in>set ps. set (columns (projr (rd p))) \<noteq> set (columns df0)"
  shows "\<exists>p df. p \<in> set ps \<and> rd p = Inr df \<and> set (columns df) \<noteq> set (columns df0) \<and>
           read_fragments rd (p0 # ps) {} [] =
             Inl (SchemaMismatch (set (columns df0)) p (columns df))"
proof -
  have ne: "set (columns df0) \<noteq> {}" using assms(2) by simp
  from read_fragments_mismatch [OF assms(3) ne assms(4), of "[df0]"]
  show ?thesis using assms(1) by simp
qed

text \<open>
  A frame list is returned only if every path was read: an exception of
  \<^verbatim>\<open>pd.read_csv\<close> leaves the loop with that exception.
\<close>

lemma read_fragments_all_read:
  "read_fragments rd ps seen acc = Inr dfs \<Longrightarrow> p \<in> set ps \<Longrightarrow> \<exists>df. rd p = Inr df"
  by (induction ps arbitrary: seen acc) (auto split: sum.splits if_splits)

lemma parse_args_example: "parse_args example_args example_fs = Inr (example_fs(''report'' \<mapsto> Dir []))"
  by (simp add: parse_args_def example_args_def example_fs_def makedirs_def rmtree_def)

lemma read_mismatch_example:
  "read_fragments (reader_mismatch fs1) (csvpath example_args) {} [] =
     Inl (SchemaMismatch {''clones_total''} ''b.csv'' [''views_total''])"
  by (simp add: reader_mismatch_def example_args_def fragment_A_def fragment_views_def)

lemma read_clones_example:
  "read_fragments (reader_clones fs1) (csvpath example_args) {} [] = Inr [fragment_A, fragment_B]"
  by (simp add: reader_clones_def example_args_def fragment_A_def fragment_B_def)

lemma presentation_example:
  "presentation \<lparr>columns = [''clones_total''],
          rows = [(20201201, [Some 10]), (20201205, [Some 4]), (20201207, [Some 73])]\<rparr> =
     Inl (KeyError [''clones_unique''])"
  by (simp add: presentation_def reset_index_def drop_columns_def)

lemma main_empty_first:
  "fst (main (\<lambda>fs. reader_empty_first) example_args example_fs) =
     Inr \<lparr>columns = [''clones_total'', ''clones_unique'', ''views_total'', ''views_unique''],
          rows = [(20201130, [None, None, None, None]),
                  (20201201, [Some 10, Some 3, Some 25, Some 7])]\<rparr>"
  by (simp add: main_def parse_args_example)
     (simp add: example_args_def reader_empty_first_def fragment_no_columns_def fragment_four_def
        build_aggregate_def concat_frames_def union_columns_def align_rows_def
        sort_index_def groupby_max_def group_of_def max_skipna_def cell_at_def max_def
        presentation_def reset_index_def drop_columns_def)

text \<open>
  Claim C5. The check compares a frame with \<^verbatim>\<open>column_names_seen\<close> only when that
  set is not empty. When the first frame has no counter column the set is still empty
  after it, the second frame is not compared with anything, and frames with different
  column sets are accepted: here the loop returns both frames, and the run goes on to
  aggregate them. \<open>schema_guard_first_nonempty\<close> and \<open>read_fragments_pass\<close> above
  show that the check does what the claim says whenever the first frame has a column.
\<close>

theorem schema_guard_misses_empty_first:
  "read_fragments reader_empty_first [''a.csv'', ''b.csv''] {} [] =
     Inr [fragment_no_columns, fragment_four] \<and>
   set (columns fragment_four) \<noteq> set (columns fragment_no_columns) \<and>
   fst (main (\<lambda>fs. reader_empty_first) example_args example_fs) =
     Inr \<lparr>columns = [''clones_total'', ''clones_unique'', ''views_total'', ''views_unique''],
          rows = [(20201130, [None, None, None, None]),
                  (20201201, [Some 10, Some 3, Some 25, Some 7])]\<rparr>"
  using main_empty_first
  by (simp add: reader_empty_first_def fragment_no_columns_def fragment_four_def)

section \<open>Failing runs and the output directory\<close>

lemma parse_args_Inr:
  assumes "parse_args a fs = Inr fs1"
  shows "fs1 (output_directory a) = Some (Dir []) \<and> csvpath a \<noteq> []"
  using assms
  by (auto simp: parse_args_def makedirs_def rmtree_def split: if_splits option.splits node.splits)

lemma exit_status_nonzero: "exit_status e \<noteq> 0"
  by (cases e) simp_all

text \<open>
  Claim C6. A command line without a CSV path ends the run in the argument parser, with
  exit status 2; the file system is as it was, and no aggregate is produced.
\<close>

theorem empty_input:
  assumes "csvpath a = []"
  shows "main read_csv a fs = (Inl ArgparseError, fs) \<and> exit_status ArgparseError \<noteq> 0"
  using assms by (simp add: main_def parse_args_def)

text \<open>
  No path on the command line: the output directory of the earlier run is untouched.
\<close>

theorem empty_input_example:
  "csvpath no_csv_args = [] \<and>
   main reader_clones no_csv_args example_fs = (Inl ArgparseError, example_fs)"
  using empty_input [of no_csv_args reader_clones example_fs]
  by (simp add: no_csv_args_def)

text \<open>
  Claim C7, as stated, fails: a run that the column check ends has already emptied the
  output directory. Here the directory held two files of an earlier run and holds
  nothing after the failed run.
\<close>

theorem failed_run_alters_output_directory:
  "main reader_mismatch example_args example_fs =
     (Inl (SchemaMismatch {''clones_total''} ''b.csv'' [''views_total'']),
      example_fs(''report'' \<mapsto> Dir [])) \<and>
   example_fs ''report'' = Some (Dir [''old_report.md'', ''old_report.html'']) \<and>
   snd (main reader_mismatch example_args example_fs) ''report'' \<noteq> example_fs ''report''"
  by (simp add: main_def parse_args_example read_mismatch_example) (simp add: example_fs_def)

text \<open>
  Claim C7, amended. When the reading loop ends with an error (an exception of
  \<^verbatim>\<open>pd.read_csv\<close> or a column mismatch), the run ends with that error and a non-zero
  exit status. The file system is then the one that \<^verbatim>\<open>parse_args\<close> left: nothing is
  written after the command line has been handled, no chart and no report. In that file
  system the output directory is an empty directory.
\<close>

theorem failed_run_resets_output_directory:
  assumes "parse_args a fs = Inr fs1"
    and "read_fragments (read_csv fs1) (csvpath a) {} [] = Inl e"
  shows "main read_csv a fs = (Inl e, fs1) \<and> exit_status e \<noteq> 0 \<and>
         fs1 (output_directory a) = Some (Dir [])"
proof -
  from parse_args_Inr [OF assms(1)] have "fs1 (output_directory a) = Some (Dir [])" by blast
  with assms show ?thesis by (simp add: main_def exit_status_nonzero)
qed

text \<open>
  The run on fragments with the columns \<^verbatim>\<open>clones_total\<close> and \<^verbatim>\<open>views_total\<close>.
\<close>

theorem failed_run_resets_output_directory_example:
  "parse_args example_args example_fs = Inr (example_fs(''report'' \<mapsto> Dir [])) \<and>
   read_fragments (reader_mismatch (example_fs(''report'' \<mapsto> Dir []))) (csvpath example_args) {} [] =
     Inl (SchemaMismatch {''clones_total''} ''b.csv'' [''views_total'']) \<and>
   main reader_mismatch example_args example_fs =
     (Inl (SchemaMismatch {''clones_total''} ''b.csv'' [''views_total'']),
      example_fs(''report'' \<mapsto> Dir [])) \<and>
   (example_fs(''report'' \<mapsto> Dir [])) (output_directory example_args) = Some (Dir [])"
  using failed_run_resets_output_directory [OF parse_args_example read_mismatch_example]
    parse_args_example read_mismatch_example
  by simp



section \<open>The presentation needs the four counters\<close>

lemma drop_columns_missing:
  "filter (\<lambda>l. l \<notin> set (columns df)) labels \<noteq> [] \<Longrightarrow>
   drop_columns labels df = Inl (KeyError (filter (\<lambda>l. l \<notin> set (columns df)) labels))"
  by (simp add: drop_columns_def)

lemma presentation_fails:
  assumes "\<not> {''clones_unique'', ''clones_total'', ''views_unique'', ''views_total''} \<subseteq> set (columns S)"
  shows "\<exists>e. presentation S = Inl e \<and> (e = ResetIndexValueError \<or> (\<exists>ls. e = KeyError ls))"
proof (cases "''time'' \<in> set (columns S)")
  case True
  then show ?thesis by (simp add: presentation_def reset_index_def)
next
  case False
  then obtain df where df: "reset_index S = Inr df" "columns df = ''time'' # columns S"
    by (simp add: reset_index_def)
  show ?thesis
  proof (cases "drop_columns [''clones_unique'', ''clones_total''] df")
    case (Inl e)
    then have "\<exists>ls. e = KeyError ls" by (auto simp: drop_columns_def split: if_splits)
    with Inl df show ?thesis by (simp add: presentation_def)
  next
    case (Inr views)
    then have c: "''clones_unique'' \<in> set (columns S)" "''clones_total'' \<in> set (columns S)"
      using df(2) by (auto simp: drop_columns_def split: if_splits)
    with assms have "''views_unique'' \<notin> set (columns S) \<or> ''views_total'' \<notin> set (columns S)"
      by auto
    then have "filter (\<lambda>l. l \<notin> set (columns df)) [''views_unique'', ''views_total''] \<noteq> []"
      using df(2) by auto
    then have "\<exists>ls. drop_columns [''views_unique'', ''views_total''] df = Inl (KeyError ls)"
      by (blast dest: drop_columns_missing)
    with Inr df show ?thesis by (auto simp: presentation_def)
  qed
qed

text \<open>
  Claim C10. When all fragments were read, passed the check and share the column set
  \<open>cs\<close>, and \<open>cs\<close> lacks one of \<^verbatim>\<open>clones_unique\<close>, \<^verbatim>\<open>clones_total\<close>,
  \<^verbatim>\<open>views_unique\<close>, \<^verbatim>\<open>views_total\<close>, then the aggregate is built and the run fails
  after that, in the presentation step: with the \<^verbatim>\<open>KeyError\<close> of \<^verbatim>\<open>drop\<close>, or with
  the \<^verbatim>\<open>ValueError\<close> of \<^verbatim>\<open>reset_index\<close> when a column is named \<^verbatim>\<open>time\<close>.
\<close>

theorem presentation_needs_four_columns:
  assumes "parse_args a fs = Inr fs1"
    and "read_fragments (read_csv fs1) (csvpath a) {} [] = Inr dfs"
    and "\<forall>df\<in>set dfs. set (columns df) = cs"
    and "\<not> {''clones_unique'', ''clones_total'', ''views_unique'', ''views_total''} \<subseteq> cs"
  shows "\<exists>S e. build_aggregate dfs = Inr S \<and> presentation S = Inl e \<and>
               main read_csv a fs = (Inl e, fs1) \<and>
               (e = ResetIndexValueError \<or> (\<exists>ls. e = KeyError ls))"
proof -
  from assms(1) have "csvpath a \<noteq> []" by (simp add: parse_args_Inr)
  with read_fragments_length [OF assms(2)] have ne: "dfs \<noteq> []" by auto
  then obtain S where S: "build_aggregate dfs = Inr S" by (simp add: build_aggregate_Inr)
  have "set (columns S) = cs"
    using assms(3) ne by (auto simp: columns_build_aggregate [OF S] set_union_columns)
  with assms(4) obtain e where e: "presentation S = Inl e"
    "e = ResetIndexValueError \<or> (\<exists>ls. e = KeyError ls)"
    using presentation_fails [of S] by auto
  have "main read_csv a fs = (Inl e, fs1)"
    using assms(1,2) S e(1) by (simp add: main_def)
  with S e show ?thesis by blast
qed

text \<open>
  Fragments A and B have the column \<^verbatim>\<open>clones_total\<close> only: the run ends with the
  \<^verbatim>\<open>KeyError\<close> for \<^verbatim>\<open>clones_unique\<close>.
\<close>

theorem presentation_needs_four_columns_example:
  "parse_args example_args example_fs = Inr (example_fs(''report'' \<mapsto> Dir [])) \<and>
   read_fragments (reader_clones (example_fs(''report'' \<mapsto> Dir []))) (csvpath example_args) {} [] =
     Inr [fragment_A, fragment_B] \<and>
   set (columns fragment_A) = {''clones_total''} \<and>
   set (columns fragment_B) = {''clones_total''} \<and>
   ''clones_unique'' \<notin> {''clones_total''} \<and>
   main reader_clones example_args example_fs =
     (Inl (KeyError [''clones_unique'']), example_fs(''report'' \<mapsto> Dir []))"
proof -
  have h3: "\<forall>df\<in>set [fragment_A, fragment_B]. set (columns df) = {''clones_total''}"
    by (simp add: fragment_A_def fragment_B_def)
  have h4: "\<not> {''clones_unique'', ''clones_total'', ''views_unique'', ''views_total''} \<subseteq> {''clones_total''}"
    by simp
  from presentation_needs_four_columns
    [where read_csv = reader_clones, OF parse_args_example read_clones_example h3 h4]
  obtain S e where S: "build_aggregate [fragment_A, fragment_B] = Inr S"
    and e: "presentation S = Inl e"
    and m: "main reader_clones example_args example_fs = (Inl e, example_fs(''report'' \<mapsto> Dir []))"
    by blast
  from S have "S = \<lparr>columns = [''clones_total''],
          rows = [(20201201, [Some 10]), (20201205, [Some 4]), (20201207, [Some 73])]\<rparr>"
    by (simp add: build_aggregate_example)
  with e have "e = KeyError [''clones_unique'']" by (simp add: presentation_example)
  with m have "main reader_clones example_args example_fs =
     (Inl (KeyError [''clones_unique'']), example_fs(''report'' \<mapsto> Dir []))"
    by simp
  moreover have "set (columns fragment_A) = {''clones_total''}"
    "set (columns fragment_B) = {''clones_total''}" "''clones_unique'' \<notin> {''clones_total''}"
    by (simp_all add: fragment_A_def fragment_B_def)
  ultimately show ?thesis using parse_args_example read_clones_example by blast
qed

end
